theory Spec2Isabelle
  imports Main "HOL-Library.Word" "HOL-Library.Sublist"
begin

unbundle bit_operations_syntax

section \<open>smallsh: a shallow embedding of main.c\<close>

text \<open>
  A C string is modelled by the list of its bytes before the terminating NUL, a
  \<open>char *\<close> that may be \<open>NULL\<close> by a \<open>string option\<close>, and the C type \<open>int\<close> by
  \<open>32 word\<close> read through \<open>sint\<close>. Where the C code has undefined behaviour (a write
  past a fixed buffer, a dereferenced \<open>NULL\<close>) the model returns a \<open>fault\<close>.
  Memory allocation is assumed to succeed.
\<close>

datatype fault = Null_deref | Buffer_overflow | Out_of_bounds

subsection \<open>Library functions used by main.c\<close>

text \<open>\<open>snprintf(buf, n, "%d", i)\<close>: the decimal text of a signed integer.\<close>

fun digits :: "nat \<Rightarrow> string" where
  "digits n =
     (if n < 10 then [''0123456789'' ! n]
      else digits (n div 10) @ [''0123456789'' ! (n mod 10)])"

declare digits.simps [simp del]

definition decimal :: "int \<Rightarrow> string" where
  "decimal i = (if i < 0 then CHR ''-'' # digits (nat (- i)) else digits (nat i))"

text \<open>
  \<open>strstr(s, v)\<close>: the offset of the first occurrence of \<open>v\<close> in \<open>s\<close>, \<open>None\<close>
  for a \<open>NULL\<close> result.
\<close>

fun strstr :: "string \<Rightarrow> string \<Rightarrow> nat option" where
  "strstr [] v = (if v = [] then Some 0 else None)"
| "strstr (c # cs) v =
     (if prefix v (c # cs) then Some 0 else map_option Suc (strstr cs v))"

text \<open>
  \<open>strtok_r(NULL, " ", &saveptr)\<close> on the rest of the line held by \<open>saveptr\<close>: leading
  spaces are skipped; at the end of the string the result is \<open>NULL\<close>; otherwise the token
  runs up to the next space, and \<open>saveptr\<close> moves past that space.
\<close>

definition strtok_r :: "string \<Rightarrow> (string \<times> string) option" where
  "strtok_r saveptr =
     (let s = dropWhile (\<lambda>c. c = CHR '' '') saveptr in
      if s = [] then None
      else Some (takeWhile (\<lambda>c. c \<noteq> CHR '' '') s,
                 drop 1 (dropWhile (\<lambda>c. c \<noteq> CHR '' '') s)))"

subsection \<open>variableExpansion\<close>

text \<open>
  The loop of \<open>variableExpansion\<close>. \<open>newString\<close> is the part of the 2048-byte buffer
  written so far (\<open>pNewString\<close> points at its end), \<open>pString\<close> the unread rest of the
  line. Each \<open>memcpy\<close> and the final \<open>strcpy\<close> (which also writes the NUL) must stay
  inside the buffer.
\<close>

function expansion_loop :: "string \<Rightarrow> string \<Rightarrow> string \<Rightarrow> 32 word \<Rightarrow> fault + string" where
  "expansion_loop newString pString variable integer =
     (let intToString = decimal (sint integer) in
      case strstr pString variable of
        None \<Rightarrow>
          if length newString + length pString + 1 \<le> 2048
          then Inr (newString @ pString) else Inl Buffer_overflow
      | Some k \<Rightarrow>
          if length newString + k + length intToString \<le> 2048
          then expansion_loop (newString @ take k pString @ intToString)
                 (drop (k + length variable) pString) variable integer
          else Inl Buffer_overflow)"
  by pat_completeness auto
termination
proof (relation "measure (\<lambda>(newString, pString, variable, integer). 2048 - length newString)")
  show "wf (measure (\<lambda>(newString, pString, variable, integer). 2048 - length newString))"
    by simp
next
  fix newString pString variable :: string and integer :: "32 word" and intToString k
  assume d: "intToString = decimal (sint integer)"
    and g: "length newString + k + length intToString \<le> 2048"
  have "digits n \<noteq> []" for n
    by (subst digits.simps) simp
  then have "intToString \<noteq> []"
    by (simp add: d decimal_def)
  then obtain n where "length intToString = Suc n"
    by (cases intToString) auto
  with g show "((newString @ take k pString @ intToString,
                 drop (k + length variable) pString, variable, integer),
                newString, pString, variable, integer)
          \<in> measure (\<lambda>(newString, pString, variable, integer). 2048 - length newString)"
    by (simp add: min_def)
qed

text \<open>
  \<open>variableExpansion(string, variable, integer)\<close>; the result is the new content of
  \<open>string\<close>. The last \<open>strcpy\<close> copies the buffer back into the caller's array, which
  in \<open>main\<close> has the same 2048 bytes.
\<close>

definition variableExpansion :: "string \<Rightarrow> string \<Rightarrow> 32 word \<Rightarrow> fault + string" where
  "variableExpansion string variable integer = expansion_loop [] string variable integer"

declare expansion_loop.simps [simp del]

subsection \<open>The command structure and processCommand\<close>

text \<open>
  \<open>struct command\<close>. \<open>arguments\<close> is the array of 512 pointers, \<open>None\<close> for
  \<open>NULL\<close>.
\<close>

record command =
  arguments :: "string option list"
  inputFile :: "string option"
  outputFile :: "string option"
  backgroundRun :: bool

text \<open>
  The token loop of \<open>processCommand\<close>, \<open>for (i = 1; token != NULL; i++)\<close>. The call
  of \<open>strtok_r\<close> that ends one pass of the body is the one that the next pass starts
  with, so the model makes it at the head; \<open>saveptr\<close> is the unread rest of the line. A
  redirection operator takes the next token as its operand without testing it
  (\<open>strlen(NULL)\<close> when there is none), and \<open>i\<close> is incremented on every pass.
  The store into \<open>arguments[i]\<close> must stay inside the 512 entries.
\<close>

function token_loop :: "nat \<Rightarrow> string \<Rightarrow> command \<Rightarrow> fault + command" where
  "token_loop i saveptr currCommand =
     (case strtok_r saveptr of
        None \<Rightarrow> Inr currCommand
      | Some (token, saveptr1) \<Rightarrow>
          if token = ''<'' then
            (case strtok_r saveptr1 of
               None \<Rightarrow> Inl Null_deref
             | Some (file, saveptr2) \<Rightarrow>
                 token_loop (i + 1) saveptr2 (currCommand\<lparr>inputFile := Some file\<rparr>))
          else if token = ''>'' then
            (case strtok_r saveptr1 of
               None \<Rightarrow> Inl Null_deref
             | Some (file, saveptr2) \<Rightarrow>
                 token_loop (i + 1) saveptr2 (currCommand\<lparr>outputFile := Some file\<rparr>))
          else if i < 512 then
            token_loop (i + 1) saveptr1
              (currCommand\<lparr>arguments := (arguments currCommand)[i := Some token]\<rparr>)
          else Inl Buffer_overflow)"
  by pat_completeness auto
termination
proof -
  have shorter: "length rest < length s" if "strtok_r s = Some (t, rest)" for s t rest
  proof -
    let ?s = "dropWhile (\<lambda>c. c = CHR '' '') s"
    from that have ne: "?s \<noteq> []"
      and rest: "rest = drop 1 (dropWhile (\<lambda>c. c \<noteq> CHR '' '') ?s)"
      by (auto simp: strtok_r_def Let_def split: if_splits)
    from ne have "hd ?s \<noteq> CHR '' ''"
      using hd_dropWhile [of "\<lambda>c. c = CHR '' ''" s] by simp
    with ne have "takeWhile (\<lambda>c. c \<noteq> CHR '' '') ?s \<noteq> []"
      by (cases ?s) auto
    then obtain n where "length (takeWhile (\<lambda>c. c \<noteq> CHR '' '') ?s) = Suc n"
      by (cases "takeWhile (\<lambda>c. c \<noteq> CHR '' '') ?s") auto
    moreover have "length (takeWhile (\<lambda>c. c \<noteq> CHR '' '') ?s)
        + length (dropWhile (\<lambda>c. c \<noteq> CHR '' '') ?s) = length ?s"
      by (metis length_append takeWhile_dropWhile_id)
    moreover have "length ?s \<le> length s"
      by (rule length_dropWhile_le)
    ultimately show ?thesis
      by (simp add: rest)
  qed
  then have shorter': "length rest < length s" if "Some (t, rest) = strtok_r s" for s t rest
    using that by (metis that)
  show ?thesis
  proof (relation "measure (\<lambda>(i, saveptr, currCommand). length saveptr)")
    show "wf (measure (\<lambda>(i, saveptr, currCommand). length saveptr))"
      by simp
  qed (auto dest!: shorter shorter')
qed

declare token_loop.simps [simp del]

text \<open>
  The last step of \<open>processCommand\<close>: a background command read while
  \<open>foregroundMode\<close> is 0 gets \<open>/dev/null\<close> for each file that is \<open>NULL\<close>.
\<close>

definition null_device_defaults :: "bool \<Rightarrow> command \<Rightarrow> command" where
  "null_device_defaults foregroundMode currCommand =
     (if backgroundRun currCommand \<and> \<not> foregroundMode then
        let c1 = (if inputFile currCommand = None
                  then currCommand\<lparr>inputFile := Some ''/dev/null''\<rparr> else currCommand)
        in if outputFile c1 = None \<and> \<not> foregroundMode
           then c1\<lparr>outputFile := Some ''/dev/null''\<rparr> else c1
      else currCommand)"

text \<open>
  \<open>processCommand(command)\<close>. \<open>block\<close> is the content of the memory that \<open>malloc\<close>
  returned for the structure: the function assigns \<open>backgroundRun\<close> and all of
  \<open>arguments\<close>, and never initialises \<open>inputFile\<close> and \<open>outputFile\<close>, which keep
  what the block held. \<open>foregroundMode\<close> is the global variable. On the empty string
  \<open>strrchr(command, 0) - 1\<close> points in front of the array; a line without any token
  makes the first \<open>strtok_r\<close> return \<open>NULL\<close>, which \<open>strdup\<close> dereferences.
\<close>

definition processCommand :: "command \<Rightarrow> bool \<Rightarrow> string \<Rightarrow> fault + command" where
  "processCommand block foregroundMode command =
     (if command = [] then Inl Out_of_bounds
      else
        let bg = (last command = CHR ''&'');
            command1 = (if bg then butlast command else command);
            c0 = block\<lparr>backgroundRun := bg, arguments := replicate 512 None\<rparr>
        in case strtok_r command1 of
             None \<Rightarrow> Inl Null_deref
           | Some (token, saveptr1) \<Rightarrow>
               (case token_loop 1 saveptr1
                       (c0\<lparr>arguments := (arguments c0)[0 := Some token]\<rparr>) of
                  Inl e \<Rightarrow> Inl e
                | Inr c \<Rightarrow> Inr (null_device_defaults foregroundMode c)))"

text \<open>
  The argument vector as \<open>execvp\<close> and the clean-up loop of \<open>main\<close> read it: the
  entries in front of the first \<open>NULL\<close>.
\<close>

definition argv :: "command \<Rightarrow> string list" where
  "argv c = map the (takeWhile (\<lambda>a. a \<noteq> None) (arguments c))"

subsection \<open>The process and its environment\<close>

text \<open>
  The state that the functions below read and change. \<open>foregroundMode\<close> is the global
  variable of main.c. Standard output has two parts: \<open>stdout_buf\<close>, what \<open>printf\<close>
  has put into the stdio buffer, and \<open>fd1\<close>, the bytes that have reached descriptor 1
  (through \<open>fflush\<close> or a direct \<open>write\<close>); \<open>fd2\<close> is standard error. The other
  fields are the answers of the operating system: \<open>resolve_dir w d p\<close> is the directory
  that \<open>chdir(p)\<close> reaches from the working directory \<open>d\<close> (\<open>None\<close> when the call
  fails), \<open>fork_result\<close> what \<open>fork\<close> returns in the process described,
  \<open>waitpid_result\<close> the pid and status that \<open>waitpid\<close> on the child delivers
  (\<open>None\<close> when it fails and leaves the status as it was), \<open>zombies\<close> the children that
  have terminated and are not yet collected, \<open>errno_text\<close> the text of \<open>strerror(errno)\<close>.
\<close>

record world =
  foregroundMode :: bool
  stdout_buf :: string
  fd1 :: string
  fd2 :: string
  cwd :: string
  env_HOME :: "string option"
  resolve_dir :: "string \<Rightarrow> string \<Rightarrow> string option"
  errno_text :: string
  fork_result :: "32 word"
  waitpid_result :: "(32 word \<times> 32 word) option"
  zombies :: "(32 word \<times> 32 word) list"
  open_read_ok :: "string \<Rightarrow> bool"
  open_write_ok :: "string \<Rightarrow> bool"
  execvp_ok :: "string \<Rightarrow> bool"

abbreviation NL :: string where
  "NL \<equiv> [CHR 0x0A]"

definition printf :: "string \<Rightarrow> world \<Rightarrow> world" where
  "printf s w = w\<lparr>stdout_buf := stdout_buf w @ s\<rparr>"

definition fflush :: "world \<Rightarrow> world" where
  "fflush w = w\<lparr>fd1 := fd1 w @ stdout_buf w, stdout_buf := []\<rparr>"

text \<open>
  \<open>write(STDOUT_FILENO, s, n)\<close> for a string literal \<open>s\<close>: the first \<open>n\<close> bytes of the
  literal's storage, which ends with the NUL.
\<close>

definition write_stdout :: "string \<Rightarrow> nat \<Rightarrow> world \<Rightarrow> world" where
  "write_stdout s n w = w\<lparr>fd1 := fd1 w @ take n (s @ [CHR 0x00])\<rparr>"

text \<open>\<open>perror(s)\<close>: \<open>s\<close>, a colon and a space, the error text and a newline on standard error.\<close>

definition perror :: "string \<Rightarrow> world \<Rightarrow> world" where
  "perror s w = w\<lparr>fd2 := fd2 w @ s @ '': '' @ errno_text w @ NL\<rparr>"

text \<open>
  \<open>chdir(path)\<close>, whose return value main.c does not read. A \<open>NULL\<close> path (an unset
  \<open>HOME\<close>) and a path that does not resolve leave the working directory as it is.
\<close>

definition chdir :: "string option \<Rightarrow> world \<Rightarrow> world" where
  "chdir path w =
     (case path of
        None \<Rightarrow> w
      | Some p \<Rightarrow> (case resolve_dir w (cwd w) p of None \<Rightarrow> w | Some d \<Rightarrow> w\<lparr>cwd := d\<rparr>))"

text \<open>The macros of \<open><sys/wait.h>\<close>, as glibc defines them on Linux.\<close>

definition WTERMSIG :: "32 word \<Rightarrow> 32 word" where
  "WTERMSIG status = status AND 0x7f"

definition WEXITSTATUS :: "32 word \<Rightarrow> 32 word" where
  "WEXITSTATUS status = drop_bit 8 (status AND 0xff00)"

definition WIFEXITED :: "32 word \<Rightarrow> bool" where
  "WIFEXITED status = (WTERMSIG status = 0)"

definition WIFSIGNALED :: "32 word \<Rightarrow> bool" where
  "WIFSIGNALED status =
     (0 < drop_bit 1 (sint (ucast ((status AND 0x7f) + 1) :: 8 word)))"

subsection \<open>handle_SIGTSTP\<close>

text \<open>The texts of the two local variables \<open>message\<close> and of \<open>prompt\<close>.\<close>

abbreviation entering_message :: string where
  "entering_message \<equiv> '' Entering foreground-only mode (& is now ignored)'' @ NL"

abbreviation exiting_message :: string where
  "exiting_message \<equiv> '' Exiting foreground-only mode'' @ NL"

abbreviation prompt :: string where
  "prompt \<equiv> '': ''"

definition handle_SIGTSTP :: "world \<Rightarrow> world" where
  "handle_SIGTSTP w =
     (let w1 =
        (if \<not> foregroundMode w then
           (fflush (write_stdout entering_message 50 w))\<lparr>foregroundMode := True\<rparr>
         else
           (fflush (write_stdout exiting_message 30 w))\<lparr>foregroundMode := False\<rparr>)
      in fflush (write_stdout prompt 3 w1))"

subsection \<open>checkBackgroundProcesses\<close>

fun reap :: "(32 word \<times> 32 word) list \<Rightarrow> world \<Rightarrow> world" where
  "reap [] w = w"
| "reap ((bPid, bStatus) # rest) w =
     (let w1 = fflush (printf (''background pid '' @ decimal (sint bPid) @ '' is done: '') w);
          w2 = (if WIFEXITED bStatus then
                  fflush (printf (''exit value '' @ decimal (sint (WEXITSTATUS bStatus)) @ NL) w1)
                else if WIFSIGNALED bStatus then
                  fflush (printf (''terminated by signal ''
                                    @ decimal (sint (WTERMSIG bStatus)) @ NL) w1)
                else w1)
      in reap rest w2)"

definition checkBackgroundProcesses :: "world \<Rightarrow> world" where
  "checkBackgroundProcesses w = (reap (zombies w) w)\<lparr>zombies := []\<rparr>"

subsection \<open>runCommand\<close>

text \<open>
  How a call of \<open>runCommand\<close> ends: it returns the foreground status to \<open>main\<close>, or
  the interpreter calls \<open>exit\<close>, or, in the process that \<open>fork\<close> created, the child
  calls \<open>exit\<close> or is replaced by the program (with its argument vector, the files
  put on its standard input and output, and whether \<open>SIGINT\<close> has its default action),
  or the call dereferences \<open>NULL\<close>.
\<close>

datatype outcome =
    Returns "32 word" world
  | Exits int world
  | Child_exits int world
  | Child_execs "string list" "string option" "string option" bool world
  | Crash fault

text \<open>
  The branch \<open>case 0\<close> of the switch: the child process. It ignores \<open>SIGTSTP\<close>
  in every case. The results of \<open>dup2\<close> and \<open>fcntl\<close> are taken to be successes.
  Once standard output is redirected, what the child prints goes to the file, which the
  model does not hold.
\<close>

definition child_branch :: "command \<Rightarrow> world \<Rightarrow> outcome" where
  "child_branch currCommand w =
     (let sigint_default = (\<not> backgroundRun currCommand \<or> foregroundMode w) in
      case (case inputFile currCommand of
              None \<Rightarrow> Inr w
            | Some f \<Rightarrow>
                if open_read_ok w f then Inr w
                else Inl (fflush (printf (''cannot open '' @ f @ '' for input'' @ NL) w))) of
        Inl w1 \<Rightarrow> Child_exits 1 (fflush w1)
      | Inr w1 \<Rightarrow>
          (case (case outputFile currCommand of
                   None \<Rightarrow> Inr w1
                 | Some f \<Rightarrow>
                     if open_write_ok w1 f then Inr w1
                     else Inl (fflush (printf (''cannot open '' @ f @ '' for output'' @ NL) w1))) of
             Inl w2 \<Rightarrow> Child_exits 1 (fflush w2)
           | Inr w2 \<Rightarrow>
               (case arguments currCommand ! 0 of
                  None \<Rightarrow> Crash Null_deref
                | Some name \<Rightarrow>
                    if execvp_ok w2 name
                    then Child_execs (argv currCommand) (inputFile currCommand)
                           (outputFile currCommand) sigint_default w2
                    else Child_exits 1
                           (if outputFile currCommand = None
                            then fflush (fflush (printf (name @ '': command not found'' @ NL) w2))
                            else w2))))"

text \<open>The branch \<open>default\<close> of the switch: the interpreter, with the child's pid.\<close>

definition parent_branch :: "command \<Rightarrow> 32 word \<Rightarrow> 32 word \<Rightarrow> world \<Rightarrow> outcome" where
  "parent_branch currCommand spawnPid fStatus w =
     (let (spawnPid1, fStatus1, w1) =
        (if \<not> backgroundRun currCommand \<or> foregroundMode w then
           (let (pid1, st1) =
              (case waitpid_result w of
                 None \<Rightarrow> (- 1, fStatus)
               | Some (p, st) \<Rightarrow> (p, st))
            in (pid1, st1,
                if WIFSIGNALED st1
                then fflush (printf ('' terminated by signal ''
                                       @ decimal (sint (WTERMSIG st1)) @ NL) w)
                else w))
         else (spawnPid, fStatus, w))
      in Returns fStatus1
           (if backgroundRun currCommand \<and> \<not> foregroundMode w1
            then fflush (printf (''background pid is '' @ decimal (sint spawnPid1) @ NL) w1)
            else w1))"

text \<open>
  \<open>runCommand(currCommand, fStatus)\<close>. \<open>exit\<close> flushes the stdio buffer before the
  process ends.
\<close>

definition runCommand :: "command \<Rightarrow> 32 word \<Rightarrow> world \<Rightarrow> outcome" where
  "runCommand currCommand fStatus w =
     (case arguments currCommand ! 0 of
        None \<Rightarrow> Crash Null_deref
      | Some name \<Rightarrow>
          if name = ''exit'' then Exits 0 (fflush w)
          else if name = ''cd'' then
            (case arguments currCommand ! 1 of
               None \<Rightarrow> Returns fStatus (chdir (env_HOME w) w)
             | Some dir \<Rightarrow> Returns fStatus (chdir (Some dir) w))
          else if name = ''status'' then
            (if WIFEXITED fStatus then
               Returns fStatus
                 (printf (''exit value '' @ decimal (sint (WEXITSTATUS fStatus)) @ NL) w)
             else if WIFSIGNALED fStatus then
               Returns fStatus
                 (printf (''terminated by signal '' @ decimal (sint (WTERMSIG fStatus)) @ NL) w)
             else Returns fStatus w)
          else
            (let spawnPid = fork_result w in
             if spawnPid = - 1 then Exits 1 (fflush (perror (''fork()'' @ NL) w))
             else if spawnPid = 0 then child_branch currCommand w
             else parent_branch currCommand spawnPid fStatus w))"

subsection \<open>The loop of main\<close>

text \<open>
  One pass of the \<open>while (1)\<close> loop of \<open>main\<close>. \<open>input\<close> is the line that \<open>fgets\<close>
  stored, its newline removed; \<open>block\<close> is the memory that \<open>malloc\<close> hands to
  \<open>processCommand\<close>; \<open>pid\<close> is the result of \<open>getpid\<close>.
\<close>

definition main_loop_body :: "command \<Rightarrow> 32 word \<Rightarrow> string \<Rightarrow> 32 word \<Rightarrow> world \<Rightarrow> outcome" where
  "main_loop_body block pid input fStatus w0 =
     (let w = fflush (printf '': '' (checkBackgroundProcesses w0)) in
      if input = [] then Returns fStatus w
      else if hd input = CHR ''#'' then Returns fStatus w
      else
        (case variableExpansion input ''$$'' pid of
           Inl e \<Rightarrow> Crash e
         | Inr line \<Rightarrow>
             (case processCommand block (foregroundMode w) line of
                Inl e \<Rightarrow> Crash e
              | Inr currCommand \<Rightarrow> runCommand currCommand fStatus w)))"

subsection \<open>Notions of the specification\<close>

text \<open>
  The specification speaks of the non-overlapping occurrences of a text in a line,
  counted in one pass from the left. \<open>pieces v s\<close> are the stretches of \<open>s\<close> between
  these occurrences of \<open>v\<close>, \<open>occurrences v s\<close> is their number, and \<open>join\<close> puts
  pieces together again with a text between them.
\<close>

function pieces :: "string \<Rightarrow> string \<Rightarrow> string list" where
  "pieces v s =
     (if v = [] then [s]
      else case strstr s v of
             None \<Rightarrow> [s]
           | Some k \<Rightarrow> take k s # pieces v (drop (k + length v) s))"
  by pat_completeness auto
termination
  by (relation "measure (\<lambda>(v, s). length s)") (auto split: if_splits elim: strstr.elims)

declare pieces.simps [simp del]

function occurrences :: "string \<Rightarrow> string \<Rightarrow> nat" where
  "occurrences v s =
     (if v = [] then 0
      else case strstr s v of
             None \<Rightarrow> 0
           | Some k \<Rightarrow> Suc (occurrences v (drop (k + length v) s)))"
  by pat_completeness auto
termination
  by (relation "measure (\<lambda>(v, s). length s)") (auto split: if_splits elim: strstr.elims)

declare occurrences.simps [simp del]

fun join :: "string \<Rightarrow> string list \<Rightarrow> string" where
  "join sep [] = []"
| "join sep [p] = p"
| "join sep (p # q # ps) = p @ sep @ join sep (q # ps)"


subsection \<open>Sample inputs\<close>

text \<open>
  A block of memory filled with zero bytes, and a block whose two file pointers are not
  zero (what \<open>malloc\<close> may return: it does not clear the memory).
\<close>

definition zero_block :: command where
  "zero_block =
     \<lparr>arguments = replicate 512 None, inputFile = None, outputFile = None,
      backgroundRun = False\<rparr>"

definition stale_block :: command where
  "stale_block =
     \<lparr>arguments = replicate 512 None, inputFile = Some ''stale-in'',
      outputFile = Some ''stale-out'', backgroundRun = False\<rparr>"

text \<open>
  An environment in which only \<open>/tmp\<close> and \<open>/home/u\<close> are directories, every file opens
  and every program is found, and \<open>fork\<close> returns the pid 4321 of a child that then
  exits with code 0.
\<close>

definition sample_world :: world where
  "sample_world =
     \<lparr>foregroundMode = False, stdout_buf = [], fd1 = [], fd2 = [],
      cwd = ''/home/u'', env_HOME = Some ''/home/u'',
      resolve_dir = (\<lambda>d p. if p = ''/tmp'' \<or> p = ''/home/u'' then Some p else None),
      errno_text = ''Resource temporarily unavailable'',
      fork_result = 4321, waitpid_result = Some (4321, 0), zombies = [],
      open_read_ok = (\<lambda>f. True), open_write_ok = (\<lambda>f. True),
      execvp_ok = (\<lambda>f. True)\<rparr>"

section \<open>Properties\<close>

subsection \<open>strstr, pieces and the expansion loop\<close>

lemma strstr_Nil_None [simp]: "v \<noteq> [] \<Longrightarrow> strstr [] v = None"
  by simp

lemma strstr_occurs: "strstr s v = Some k \<Longrightarrow> s = take k s @ v @ drop (k + length v) s"
proof (induction s arbitrary: k)
  case Nil
  then show ?case by (simp split: if_splits)
next
  case (Cons c cs)
  show ?case
  proof (cases "prefix v (c # cs)")
    case True
    with Cons.prems have "k = 0" by simp
    with True show ?thesis by (auto simp: prefix_def)
  next
    case False
    with Cons.prems obtain j where j: "strstr cs v = Some j" "k = Suc j"
      by auto
    from Cons.IH [OF j(1)] have "cs = take j cs @ v @ drop (j + length v) cs" .
    then show ?thesis using j(2) by simp
  qed
qed

lemma strstr_le: "strstr s v = Some k \<Longrightarrow> k + length v \<le> length s"
proof (induction s arbitrary: k)
  case Nil
  then show ?case by (simp split: if_splits)
next
  case (Cons c cs)
  show ?case
  proof (cases "prefix v (c # cs)")
    case True
    with Cons.prems have "k = 0" by simp
    with True show ?thesis using prefix_length_le by fastforce
  next
    case False
    with Cons.prems obtain j where j: "strstr cs v = Some j" "k = Suc j"
      by auto
    from Cons.IH [OF j(1)] j(2) show ?thesis by simp
  qed
qed

lemma pieces_nonempty: "pieces v s \<noteq> []"
  by (subst pieces.simps) (simp split: option.splits)

lemma join_Cons: "ps \<noteq> [] \<Longrightarrow> join d (p # ps) = p @ d @ join d ps"
  by (cases ps) simp_all

lemma join_pieces: "join v (pieces v s) = s"
proof (induction v s rule: pieces.induct)
  case (1 v s)
  show ?case
  proof (cases "v = []")
    case True
    then show ?thesis by (subst pieces.simps) simp
  next
    case False
    show ?thesis
    proof (cases "strstr s v")
      case None
      with False show ?thesis by (subst pieces.simps) simp
    next
      case (Some k)
      have "pieces v s = take k s # pieces v (drop (k + length v) s)"
        using False Some by (subst pieces.simps) simp
      then have "join v (pieces v s) = take k s @ v @ join v (pieces v (drop (k + length v) s))"
        by (simp add: join_Cons pieces_nonempty)
      also have "\<dots> = take k s @ v @ drop (k + length v) s"
        using "1.IH" [OF False Some] by simp
      also have "\<dots> = s"
        using strstr_occurs [OF Some] by simp
      finally show ?thesis .
    qed
  qed
qed

lemma length_pieces: "length (pieces v s) = Suc (occurrences v s)"
proof (induction v s rule: pieces.induct)
  case (1 v s)
  show ?case
  proof (cases "v = []")
    case True
    then show ?thesis by (subst pieces.simps, subst occurrences.simps) simp
  next
    case False
    show ?thesis
    proof (cases "strstr s v")
      case None
      with False show ?thesis by (subst pieces.simps, subst occurrences.simps) simp
    next
      case (Some k)
      with False "1.IH" [OF False Some] show ?thesis
        by (subst pieces.simps, subst occurrences.simps) simp
    qed
  qed
qed

lemma expansion_loop_eq:
  "v \<noteq> [] \<Longrightarrow>
   expansion_loop acc s v pid =
     (if length (acc @ join (decimal (sint pid)) (pieces v s)) < 2048
      then Inr (acc @ join (decimal (sint pid)) (pieces v s))
      else Inl Buffer_overflow)"
proof (induction acc s v pid rule: expansion_loop.induct)
  case (1 acc s v pid)
  let ?d = "decimal (sint pid)"
  show ?case
  proof (cases "strstr s v")
    case None
    then have "pieces v s = [s]" by (subst pieces.simps) simp
    with None show ?thesis
      by (subst expansion_loop.simps) (auto simp: Let_def)
  next
    case (Some k)
    let ?rest = "drop (k + length v) s"
    have p: "pieces v s = take k s # pieces v ?rest"
      using Some "1.prems" by (subst pieces.simps) simp
    have j: "join ?d (pieces v s) = take k s @ ?d @ join ?d (pieces v ?rest)"
      by (simp add: p join_Cons pieces_nonempty)
    have k: "length (take k s) = k"
      using strstr_le [OF Some] by simp
    show ?thesis
    proof (cases "length acc + k + length ?d \<le> 2048")
      case True
      have "expansion_loop acc s v pid = expansion_loop (acc @ take k s @ ?d) ?rest v pid"
        using Some True by (subst expansion_loop.simps) (simp add: Let_def)
      also have "\<dots> = (if length ((acc @ take k s @ ?d) @ join ?d (pieces v ?rest)) < 2048
          then Inr ((acc @ take k s @ ?d) @ join ?d (pieces v ?rest))
          else Inl Buffer_overflow)"
        using "1.IH" [OF refl Some True "1.prems"] .
      finally show ?thesis by (simp add: j)
    next
      case False
      then have "expansion_loop acc s v pid = Inl Buffer_overflow"
        using Some by (subst expansion_loop.simps) (simp add: Let_def)
      moreover have "\<not> length (acc @ join ?d (pieces v s)) < 2048"
        using False k by (simp add: j)
      ultimately show ?thesis by simp
    qed
  qed
qed

lemma digit_char: "n < 10 \<Longrightarrow> ''0123456789'' ! n \<in> set ''0123456789''"
  by (rule nth_mem) simp

lemma digits_chars: "set (digits n) \<subseteq> set ''0123456789''"
proof (induction n rule: digits.induct)
  case (1 n)
  show ?case
  proof (cases "n < 10")
    case True
    then show ?thesis using digit_char [of n] by (subst digits.simps) simp
  next
    case False
    have "n mod 10 < 10" by simp
    from digit_char [OF this] "1.IH" [OF False] False show ?thesis
      by (subst digits.simps) simp
  qed
qed

lemma digits_nonempty: "digits n \<noteq> []"
  by (subst digits.simps) simp

lemma decimal_nonempty: "decimal i \<noteq> []"
  by (simp add: decimal_def digits_nonempty)

lemma digits_no_dollar: "CHR ''$'' \<notin> set (digits n)"
proof
  assume "CHR ''$'' \<in> set (digits n)"
  from subsetD [OF digits_chars this] show False by simp
qed

lemma decimal_no_dollar: "CHR ''$'' \<notin> set (decimal i)"
  by (simp add: decimal_def digits_no_dollar)

lemma strstr_take_None: "v \<noteq> [] \<Longrightarrow> strstr s v = Some k \<Longrightarrow> strstr (take k s) v = None"
proof (induction s arbitrary: k)
  case Nil
  then show ?case by simp
next
  case (Cons c cs)
  show ?case
  proof (cases "prefix v (c # cs)")
    case True
    with Cons.prems show ?thesis by simp
  next
    case False
    with Cons.prems obtain j where j: "strstr cs v = Some j" "k = Suc j"
      by auto
    have "\<not> prefix v (c # take j cs)"
    proof
      assume "prefix v (c # take j cs)"
      moreover have "prefix (c # take j cs) (c # cs)"
        by (simp add: take_is_prefix)
      ultimately have "prefix v (c # cs)"
        by (rule prefix_order.trans)
      with False show False ..
    qed
    with Cons.IH [OF Cons.prems(1) j(1)] j(2) show ?thesis by simp
  qed
qed

lemma no_marker_prepend:
  "strstr x ''$$'' = None \<Longrightarrow> CHR ''$'' \<notin> set d \<Longrightarrow> strstr (d @ x) ''$$'' = None"
  by (induction d) auto

lemma no_marker_append:
  "strstr p ''$$'' = None \<Longrightarrow> strstr y ''$$'' = None \<Longrightarrow> y \<noteq> [] \<Longrightarrow> hd y \<noteq> CHR ''$''
   \<Longrightarrow> strstr (p @ y) ''$$'' = None"
proof (induction p)
  case Nil
  then show ?case by simp
next
  case (Cons c cs)
  from Cons.prems(1) have np: "\<not> prefix ''$$'' (c # cs)" and cs: "strstr cs ''$$'' = None"
    by (auto split: if_splits)
  have "\<not> prefix ''$$'' (c # cs @ y)"
  proof (cases cs)
    case Nil
    with Cons.prems(3,4) show ?thesis by (cases y) auto
  next
    case (Cons c' cs')
    with np show ?thesis by auto
  qed
  with Cons.IH [OF cs Cons.prems(2,3,4)] show ?case by simp
qed

lemma no_marker_join:
  assumes d: "d \<noteq> []" "CHR ''$'' \<notin> set d"
  shows "strstr (join d (pieces ''$$'' s)) ''$$'' = None"
proof (induction "''$$''" s rule: pieces.induct)
  case (1 s)
  show ?case
  proof (cases "strstr s ''$$''")
    case None
    then show ?thesis by (subst pieces.simps) simp
  next
    case (Some k)
    let ?rest = "drop (k + length ''$$'') s"
    have p: "pieces ''$$'' s = take k s # pieces ''$$'' ?rest"
      using Some by (subst pieces.simps) simp
    have ih: "strstr (join d (pieces ''$$'' ?rest)) ''$$'' = None"
      using "1.hyps" [OF _ Some] by simp
    have a: "strstr (d @ join d (pieces ''$$'' ?rest)) ''$$'' = None"
      by (rule no_marker_prepend [OF ih d(2)])
    have b: "strstr (take k s) ''$$'' = None"
      by (rule strstr_take_None [OF _ Some]) simp
    have "hd (d @ join d (pieces ''$$'' ?rest)) \<noteq> CHR ''$''"
      using d by (cases d) auto
    with no_marker_append [OF b a] d(1)
    have "strstr (take k s @ d @ join d (pieces ''$$'' ?rest)) ''$$'' = None"
      by simp
    then show ?thesis
      by (simp add: p join_Cons pieces_nonempty)
  qed
qed

lemma prefix_hd: "d \<noteq> [] \<Longrightarrow> prefix d (a # s) \<Longrightarrow> hd d = a"
  by (cases d) auto

lemma strstr_absent: "d \<noteq> [] \<Longrightarrow> hd d \<notin> set s \<Longrightarrow> strstr s d = None"
  by (induction s) (auto dest: prefix_hd)

lemma strstr_first: "d \<noteq> [] \<Longrightarrow> hd d \<notin> set p \<Longrightarrow> strstr (p @ d @ x) d = Some (length p)"
proof (induction p)
  case Nil
  then show ?case by (cases d) auto
next
  case (Cons a p)
  then show ?case by (auto dest: prefix_hd)
qed

lemma occurrences_join:
  assumes d: "d \<noteq> []"
  shows "v \<noteq> [] \<Longrightarrow> hd d \<notin> set s \<Longrightarrow> occurrences d (join d (pieces v s)) = occurrences v s"
proof (induction v s rule: pieces.induct)
  case (1 v s)
  note v = \<open>v \<noteq> []\<close>
  show ?case
  proof (cases "strstr s v")
    case None
    have "pieces v s = [s]"
      using None by (subst pieces.simps) simp
    moreover have "occurrences v s = 0"
      using None by (subst occurrences.simps) simp
    moreover have "occurrences d s = 0"
      using strstr_absent [OF d "1.prems"(2)] by (subst occurrences.simps) simp
    ultimately show ?thesis by simp
  next
    case (Some k)
    let ?rest = "drop (k + length v) s"
    let ?J = "join d (pieces v ?rest)"
    have p: "pieces v s = take k s # pieces v ?rest"
      using Some v by (subst pieces.simps) simp
    have j: "join d (pieces v s) = take k s @ d @ ?J"
      by (simp add: p join_Cons pieces_nonempty)
    have "hd d \<notin> set (take k s)"
      using "1.prems"(2) by (meson in_set_takeD)
    then have f: "strstr (take k s @ d @ ?J) d = Some (length (take k s))"
      by (rule strstr_first [OF d])
    have "hd d \<notin> set ?rest"
      using "1.prems"(2) by (meson in_set_dropD)
    then have ih: "occurrences d ?J = occurrences v ?rest"
      using "1.IH" [OF v Some v] by simp
    have "occurrences d (take k s @ d @ ?J) = Suc (occurrences d ?J)"
      using f d by (subst occurrences.simps) simp
    moreover have "occurrences v s = Suc (occurrences v ?rest)"
      using Some v by (subst occurrences.simps) simp
    ultimately show ?thesis using ih by (simp only: j)
  qed
qed

text \<open>
  Claim C1 (as amended). Whenever the expanded text fits the 2048-byte buffer,
  \<open>variableExpansion\<close> returns the line with each of its \<open>N\<close> non-overlapping
  occurrences of \<open>$$\<close>, taken from the left, replaced by the decimal text of the pid,
  and otherwise it writes past the buffer. The pieces of the line between the markers
  are unchanged and in order, no \<open>$$\<close> is left in the result, and replaced text is
  not scanned again. The result holds exactly \<open>N\<close> non-overlapping occurrences of the
  pid's text when no character of that text occurs in the line itself.
\<close>

theorem variableExpansion_replaces_markers:
  "variableExpansion line ''$$'' pid =
     (if length (join (decimal (sint pid)) (pieces ''$$'' line)) < 2048
      then Inr (join (decimal (sint pid)) (pieces ''$$'' line))
      else Inl Buffer_overflow)
   \<and> join ''$$'' (pieces ''$$'' line) = line
   \<and> length (pieces ''$$'' line) = Suc (occurrences ''$$'' line)
   \<and> strstr (join (decimal (sint pid)) (pieces ''$$'' line)) ''$$'' = None
   \<and> (set line \<inter> set (decimal (sint pid)) = {} \<longrightarrow>
        occurrences (decimal (sint pid)) (join (decimal (sint pid)) (pieces ''$$'' line))
          = occurrences ''$$'' line)"
proof -
  let ?d = "decimal (sint pid)"
  have d: "?d \<noteq> []"
    by (rule decimal_nonempty)
  have "variableExpansion line ''$$'' pid =
     (if length (join ?d (pieces ''$$'' line)) < 2048
      then Inr (join ?d (pieces ''$$'' line)) else Inl Buffer_overflow)"
    using expansion_loop_eq [of "''$$''" "[]" line pid] by (simp add: variableExpansion_def)
  moreover have "join ''$$'' (pieces ''$$'' line) = line"
    by (rule join_pieces)
  moreover have "length (pieces ''$$'' line) = Suc (occurrences ''$$'' line)"
    by (rule length_pieces)
  moreover have "strstr (join ?d (pieces ''$$'' line)) ''$$'' = None"
    by (rule no_marker_join [OF d decimal_no_dollar])
  moreover have "occurrences ?d (join ?d (pieces ''$$'' line)) = occurrences ''$$'' line"
    if "set line \<inter> set ?d = {}"
  proof -
    from d have "hd ?d \<in> set ?d" by simp
    with that have "hd ?d \<notin> set line" by blast
    with occurrences_join [OF d, of "''$$''" line] show ?thesis
      by simp
  qed
  ultimately show ?thesis by blast
qed

text \<open>The theorem at the line \<open>echo $$ a$$$\<close> and the pid 4242.\<close>

theorem variableExpansion_replaces_markers_witness:
  "set ''echo $$ a$$$'' \<inter> set (decimal (sint (4242 :: 32 word))) = {}
   \<and> variableExpansion ''echo $$ a$$$'' ''$$'' 4242 = Inr ''echo 4242 a4242$''
   \<and> occurrences ''$$'' ''echo $$ a$$$'' = 2
   \<and> occurrences ''4242'' ''echo 4242 a4242$'' = 2"
  using variableExpansion_replaces_markers [of "''echo $$ a$$$''" 4242]
  by (simp add: pieces.simps occurrences.simps decimal_def digits.simps)

text \<open>
  Claim C1 as stated fails when the line has digits of its own: \<open>echo 12 $$\<close> holds
  the marker once, and with the pid 12 its expansion \<open>echo 12 12\<close> holds the pid's
  text twice.
\<close>

theorem variableExpansion_counterexample:
  "variableExpansion ''echo 12 $$'' ''$$'' 12 = Inr ''echo 12 12''
   \<and> occurrences ''$$'' ''echo 12 $$'' = 1
   \<and> occurrences (decimal (sint (12 :: 32 word))) ''echo 12 12'' = 2"
  by (simp add: variableExpansion_def expansion_loop.simps occurrences.simps decimal_def
      digits.simps)

subsection \<open>The token loop and processCommand\<close>








lemma argv_prefix:
  assumes "k < length (arguments c)" and "arguments c ! k = None"
    and "\<And>j. j < k \<Longrightarrow> arguments c ! j \<noteq> None"
  shows "argv c = map (\<lambda>j. the (arguments c ! j)) [0..<k]"
proof -
  have "takeWhile (\<lambda>a. a \<noteq> None) (arguments c) = take k (arguments c)"
    using assms by (intro takeWhile_eq_take_P_nth) auto
  moreover have "take k (arguments c) = map (\<lambda>j. arguments c ! j) [0..<k]"
    using assms(1) by (intro nth_equalityI) auto
  ultimately show ?thesis
    by (simp add: argv_def)
qed

lemmas parse_simps =
  processCommand_def token_loop.simps strtok_r_def null_device_defaults_def Let_def




text \<open>
  On a block of zero bytes the two examples of the specification come out as it says.
\<close>

lemma parse_echo_hi_zero_block:
  "map_sum id (\<lambda>c. (argv c, backgroundRun c, inputFile c, outputFile c))
     (processCommand zero_block fg ''echo hi'')
   = Inr ([''echo'', ''hi''], False, None, None)"
proof -
  let ?c = "\<lparr>arguments = (replicate 512 None)[0 := Some ''echo'', 1 := Some ''hi''],
             inputFile = None, outputFile = None, backgroundRun = False\<rparr>"
  have c: "processCommand zero_block fg ''echo hi'' = Inr ?c"
    by (simp add: parse_simps zero_block_def)
  have "argv ?c = map (\<lambda>j. the (arguments ?c ! j)) [0..<2]"
    by (rule argv_prefix) (auto simp: less_Suc_eq numeral_2_eq_2)
  then have "argv ?c = [''echo'', ''hi'']"
    by (simp add: numeral_2_eq_2)
  with c show ?thesis by simp
qed

lemma parse_sleep_zero_block:
  "map_sum id (\<lambda>c. (argv c, backgroundRun c, inputFile c, outputFile c))
     (processCommand zero_block fg ''sleep 5 &'')
   = Inr ([''sleep'', ''5''], True,
          if fg then None else Some ''/dev/null'', if fg then None else Some ''/dev/null'')"
proof -
  let ?c = "\<lparr>arguments = (replicate 512 None)[0 := Some ''sleep'', 1 := Some ''5''],
             inputFile = if fg then None else Some ''/dev/null'',
             outputFile = if fg then None else Some ''/dev/null'', backgroundRun = True\<rparr>"
  have c: "processCommand zero_block fg ''sleep 5 &'' = Inr ?c"
    by (simp add: parse_simps zero_block_def)
  have "argv ?c = map (\<lambda>j. the (arguments ?c ! j)) [0..<2]"
    by (rule argv_prefix) (auto simp: less_Suc_eq numeral_2_eq_2)
  then have "argv ?c = [''sleep'', ''5'']"
    by (simp add: numeral_2_eq_2)
  with c show ?thesis by simp
qed

lemma parse_redirections_last:
  "map_sum id (\<lambda>c. (argv c, inputFile c, outputFile c))
     (processCommand zero_block fg ''wc -l < in.txt > out.txt'')
   = Inr ([''wc'', ''-l''], Some ''in.txt'', Some ''out.txt'')"
proof -
  let ?c = "\<lparr>arguments = (replicate 512 None)[0 := Some ''wc'', 1 := Some ''-l''],
             inputFile = Some ''in.txt'', outputFile = Some ''out.txt'',
             backgroundRun = False\<rparr>"
  have c: "processCommand zero_block fg ''wc -l < in.txt > out.txt'' = Inr ?c"
    by (simp add: parse_simps zero_block_def)
  have "argv ?c = map (\<lambda>j. the (arguments ?c ! j)) [0..<2]"
    by (rule argv_prefix) (auto simp: less_Suc_eq numeral_2_eq_2)
  then have "argv ?c = [''wc'', ''-l'']"
    by (simp add: numeral_2_eq_2)
  with c show ?thesis by simp
qed

text \<open>
  Claim C3 at the line \<open>sleep 5 &\<close>, with \<open>foregroundMode\<close> 0 and a block
  whose file pointers are not zero: \<open>processCommand\<close> never initialises
  \<open>inputFile\<close> and \<open>outputFile\<close>, its tests against \<open>NULL\<close> read what the
  block held, and neither file is set to \<open>/dev/null\<close>.
\<close>

theorem stale_block_background:
  "map_sum id (\<lambda>c. (argv c, backgroundRun c, inputFile c, outputFile c))
     (processCommand stale_block False ''sleep 5 &'')
   = Inr ([''sleep'', ''5''], True, Some ''stale-in'', Some ''stale-out'')"
proof -
  let ?c = "\<lparr>arguments = (replicate 512 None)[0 := Some ''sleep'', 1 := Some ''5''],
             inputFile = Some ''stale-in'', outputFile = Some ''stale-out'',
             backgroundRun = True\<rparr>"
  have c: "processCommand stale_block False ''sleep 5 &'' = Inr ?c"
    by (simp add: parse_simps stale_block_def)
  have "argv ?c = map (\<lambda>j. the (arguments ?c ! j)) [0..<2]"
    by (rule argv_prefix) (auto simp: less_Suc_eq numeral_2_eq_2)
  then have "argv ?c = [''sleep'', ''5'']"
    by (simp add: numeral_2_eq_2)
  with c show ?thesis by simp
qed

text \<open>
  Claim C4 at the line \<open>wc < in.txt -l\<close>: the index \<open>i\<close> is incremented on the
  pass that handles the redirection too, so \<open>arguments[1]\<close> stays \<open>NULL\<close> and
  \<open>-l\<close> is stored in \<open>arguments[2]\<close>, behind the \<open>NULL\<close> that ends the
  vector for \<open>execvp\<close>.
\<close>

theorem argument_after_redirection_lost:
  "map_sum id (\<lambda>c. (arguments c ! 0, arguments c ! 1, arguments c ! 2, argv c, inputFile c))
     (processCommand block fg ''wc < in.txt -l'')
   = Inr (Some ''wc'', None, Some ''-l'', [''wc''], Some ''in.txt'')"
proof -
  let ?c = "block\<lparr>backgroundRun := False,
              arguments := (replicate 512 None)[0 := Some ''wc'', 2 := Some ''-l''],
              inputFile := Some ''in.txt''\<rparr>"
  have c: "processCommand block fg ''wc < in.txt -l'' = Inr ?c"
    by (simp add: parse_simps numeral_2_eq_2)
  have "argv ?c = map (\<lambda>j. the (arguments ?c ! j)) [0..<1]"
    by (rule argv_prefix) auto
  then have "argv ?c = [''wc'']"
    by simp
  with c show ?thesis by simp
qed

text \<open>
  Claim C5 at the line \<open>echo hi\<close> and a block whose file pointers are not zero:
  the command has an \<open>inputFile\<close> and an \<open>outputFile\<close>, though the line has no
  redirection and no null-device default applies.
\<close>

theorem stale_block_foreground:
  "map_sum id (\<lambda>c. (argv c, backgroundRun c, inputFile c, outputFile c))
     (processCommand stale_block fg ''echo hi'')
   = Inr ([''echo'', ''hi''], False, Some ''stale-in'', Some ''stale-out'')"
proof -
  let ?c = "\<lparr>arguments = (replicate 512 None)[0 := Some ''echo'', 1 := Some ''hi''],
             inputFile = Some ''stale-in'', outputFile = Some ''stale-out'',
             backgroundRun = False\<rparr>"
  have c: "processCommand stale_block fg ''echo hi'' = Inr ?c"
    by (simp add: parse_simps stale_block_def)
  have "argv ?c = map (\<lambda>j. the (arguments ?c ! j)) [0..<2]"
    by (rule argv_prefix) (auto simp: less_Suc_eq numeral_2_eq_2)
  then have "argv ?c = [''echo'', ''hi'']"
    by (simp add: numeral_2_eq_2)
  with c show ?thesis by simp
qed

subsection \<open>runCommand\<close>




text \<open>
  The statuses that \<open>waitpid\<close> delivers on Linux: the exit code in bits 8 to 15,
  or the signal number in the low seven bits.
\<close>

lemma wait_status_of_exit:
  assumes "n < 256"
  shows "WIFEXITED (push_bit 8 (word_of_nat n))
       \<and> sint (WEXITSTATUS (push_bit 8 (word_of_nat n))) = int n"
proof -
  let ?x = "word_of_nat n :: 32 word"
  have m7: "(0x7f :: 32 word) = mask 7"
    by (simp add: mask_eq_exp_minus_1)
  have mff: "(0xff00 :: 32 word) = push_bit 8 (mask 8)"
    by (simp add: mask_eq_exp_minus_1 push_bit_eq_mult)
  have "push_bit 8 ?x AND mask 7 = 0"
    by (rule bit_eqI) (auto simp: bit_simps)
  then have e: "WIFEXITED (push_bit 8 ?x)"
    by (simp only: WIFEXITED_def WTERMSIG_def m7)
  have "drop_bit 8 (push_bit 8 ?x AND push_bit 8 (mask 8)) = ?x AND mask 8"
    by (rule bit_eqI) (auto simp: bit_simps)
  also have "\<dots> = ?x"
    using assms by (simp flip: take_bit_eq_mask add: take_bit_of_nat take_bit_nat_eq_self)
  finally have "WEXITSTATUS (push_bit 8 ?x) = ?x"
    by (simp only: WEXITSTATUS_def mff)
  moreover have "sint ?x = int n"
    using assms by (simp add: signed_of_nat signed_take_bit_int_eq_self_iff)
  ultimately show ?thesis
    using e by simp
qed

lemma wait_status_of_signal:
  assumes "0 < n" "n < 127"
  shows "WIFSIGNALED (word_of_nat n) \<and> sint (WTERMSIG (word_of_nat n)) = int n"
proof -
  let ?x = "word_of_nat n :: 32 word"
  have m7: "(0x7f :: 32 word) = mask 7"
    by (simp add: mask_eq_exp_minus_1)
  have t: "?x AND mask 7 = ?x"
    using assms by (simp flip: take_bit_eq_mask add: take_bit_of_nat take_bit_nat_eq_self)
  have u: "(ucast (word_of_nat m :: 32 word) :: 8 word) = word_of_nat m" for m
    by (rule bit_word_eqI) (auto simp: bit_simps)
  have s8: "sint (word_of_nat m :: 8 word) = int m" if "m < 128" for m
    using that by (simp add: signed_of_nat signed_take_bit_int_eq_self_iff)
  have x1: "?x + 1 = word_of_nat (Suc n)"
    by simp
  have "sint (ucast ((?x AND mask 7) + 1) :: 8 word) = int (Suc n)"
    unfolding t x1 u using assms by (intro s8) simp
  moreover have "0 < drop_bit 1 (int (Suc n))"
    using assms by (simp add: drop_bit_eq_div)
  ultimately have "0 < drop_bit 1 (sint (ucast ((?x AND mask 7) + 1) :: 8 word))"
    by (simp only:)
  then have s: "WIFSIGNALED ?x"
    by (simp only: WIFSIGNALED_def m7)
  have "sint ?x = int n"
    using assms by (simp add: signed_of_nat signed_take_bit_int_eq_self_iff)
  then have "sint (WTERMSIG ?x) = int n"
    by (simp only: WTERMSIG_def m7 t)
  with s show ?thesis ..
qed

lemma chdir_output:
  "stdout_buf (chdir p w) = stdout_buf w \<and> fd1 (chdir p w) = fd1 w \<and> fd2 (chdir p w) = fd2 w"
  by (simp add: chdir_def split: option.splits)

text \<open>
  Claim C7 (as amended). The built-in \<open>cd\<close> prints nothing, whether the change of
  directory succeeds or fails, and returns the status it was given. When \<open>chdir\<close>
  fails, nothing at all changes; with a path that resolves, the working directory becomes
  that directory; with no argument, the path is the value of \<open>HOME\<close>.
\<close>

theorem cd_builtin:
  assumes "arguments c ! 0 = Some ''cd''"
  shows "(\<exists>w'. runCommand c fStatus w = Returns fStatus w'
            \<and> stdout_buf w' = stdout_buf w \<and> fd1 w' = fd1 w \<and> fd2 w' = fd2 w)
       \<and> (arguments c ! 1 = Some dir \<longrightarrow> resolve_dir w (cwd w) dir = None \<longrightarrow>
            runCommand c fStatus w = Returns fStatus w)
       \<and> (arguments c ! 1 = Some dir \<longrightarrow> resolve_dir w (cwd w) dir = Some d \<longrightarrow>
            runCommand c fStatus w = Returns fStatus (w\<lparr>cwd := d\<rparr>))
       \<and> (arguments c ! 1 = None \<longrightarrow>
            runCommand c fStatus w = Returns fStatus (chdir (env_HOME w) w))"
proof -
  let ?p = "case arguments c ! 1 of None \<Rightarrow> env_HOME w | Some dir \<Rightarrow> Some dir"
  have r: "runCommand c fStatus w = Returns fStatus (chdir ?p w)"
    using assms by (simp add: runCommand_def split: option.splits)
  show ?thesis
    using chdir_output [of ?p w] by (auto simp: r chdir_def)
qed

text \<open>
  The theorem at \<open>cd /nonexistent\<close>, at \<open>cd /tmp\<close> and at \<open>cd\<close> alone.
\<close>

theorem cd_builtin_witness:
  "runCommand (zero_block\<lparr>arguments :=
       (replicate 512 None)[0 := Some ''cd'', 1 := Some ''/nonexistent'']\<rparr>) 768 sample_world
     = Returns 768 sample_world
   \<and> runCommand (zero_block\<lparr>arguments :=
       (replicate 512 None)[0 := Some ''cd'', 1 := Some ''/tmp'']\<rparr>) 768 sample_world
     = Returns 768 (sample_world\<lparr>cwd := ''/tmp''\<rparr>)
   \<and> runCommand (zero_block\<lparr>arguments := (replicate 512 None)[0 := Some ''cd'']\<rparr>) 768
       (sample_world\<lparr>cwd := ''/tmp''\<rparr>)
     = Returns 768 (sample_world\<lparr>cwd := ''/home/u''\<rparr>)"
proof -
  let ?bad = "zero_block\<lparr>arguments :=
       (replicate 512 None)[0 := Some ''cd'', 1 := Some ''/nonexistent'']\<rparr>"
  let ?tmp = "zero_block\<lparr>arguments :=
       (replicate 512 None)[0 := Some ''cd'', 1 := Some ''/tmp'']\<rparr>"
  let ?home = "zero_block\<lparr>arguments := (replicate 512 None)[0 := Some ''cd'']\<rparr>"
  have "arguments ?bad ! 0 = Some ''cd''" "arguments ?bad ! 1 = Some ''/nonexistent''"
    "resolve_dir sample_world (cwd sample_world) ''/nonexistent'' = None"
    by (simp_all add: sample_world_def)
  with cd_builtin [where c = ?bad and dir = "''/nonexistent''" and w = sample_world
      and fStatus = 768]
  have 1: "runCommand ?bad 768 sample_world = Returns 768 sample_world"
    by blast
  have "arguments ?tmp ! 0 = Some ''cd''" "arguments ?tmp ! 1 = Some ''/tmp''"
    "resolve_dir sample_world (cwd sample_world) ''/tmp'' = Some ''/tmp''"
    by (simp_all add: sample_world_def)
  with cd_builtin [where c = ?tmp and dir = "''/tmp''" and w = sample_world and d = "''/tmp''"
      and fStatus = 768]
  have 2: "runCommand ?tmp 768 sample_world = Returns 768 (sample_world\<lparr>cwd := ''/tmp''\<rparr>)"
    by blast
  have "arguments ?home ! 0 = Some ''cd''" "arguments ?home ! 1 = None"
    by simp_all
  with cd_builtin [where c = ?home and w = "sample_world\<lparr>cwd := ''/tmp''\<rparr>" and fStatus = 768]
  have "runCommand ?home 768 (sample_world\<lparr>cwd := ''/tmp''\<rparr>)
      = Returns 768 (chdir (env_HOME (sample_world\<lparr>cwd := ''/tmp''\<rparr>))
          (sample_world\<lparr>cwd := ''/tmp''\<rparr>))"
    by blast
  then have 3: "runCommand ?home 768 (sample_world\<lparr>cwd := ''/tmp''\<rparr>)
      = Returns 768 (sample_world\<lparr>cwd := ''/home/u''\<rparr>)"
    by (simp add: chdir_def sample_world_def)
  from 1 2 3 show ?thesis by blast
qed

text \<open>
  Claim C7 as stated fails at \<open>cd /nonexistent\<close>: the failure is not reported,
  nothing is written to any stream.
\<close>

theorem cd_builtin_counterexample:
  "map_sum id (\<lambda>c. runCommand c 0 sample_world)
     (processCommand zero_block False ''cd /nonexistent'')
   = Inr (Returns 0 sample_world)
   \<and> stdout_buf sample_world = [] \<and> fd1 sample_world = [] \<and> fd2 sample_world = []"
  by (simp add: parse_simps zero_block_def runCommand_def chdir_def sample_world_def)

lemma child_branch_no_return:
  "child_branch c w \<noteq> Returns st w' \<and> child_branch c w \<noteq> Exits code w'"
  by (simp add: child_branch_def Let_def split: option.splits if_splits sum.splits)

lemma parent_branch_returns:
  "\<exists>st w'. parent_branch c spawnPid fStatus w = Returns st w'"
  by (simp add: parent_branch_def Let_def split: option.splits prod.splits)

text \<open>
  Claim C10. When \<open>backgroundRun\<close> is set and \<open>foregroundMode\<close> is 0,
  \<open>runCommand\<close> returns the status it was given whenever it returns; and for a
  command that is no built-in, when \<open>fork\<close> succeeds, the interpreter does not
  wait: it prints the pid of the child and returns that status.
\<close>

theorem background_run_keeps_status:
  assumes "backgroundRun c" and "\<not> foregroundMode w"
  shows "(runCommand c fStatus w = Returns st w' \<longrightarrow> st = fStatus)
       \<and> (arguments c ! 0 = Some name \<longrightarrow> name \<noteq> ''exit'' \<longrightarrow> name \<noteq> ''cd'' \<longrightarrow>
            name \<noteq> ''status'' \<longrightarrow> fork_result w \<noteq> - 1 \<longrightarrow> fork_result w \<noteq> 0 \<longrightarrow>
            runCommand c fStatus w
              = Returns fStatus
                  (fflush (printf (''background pid is '' @ decimal (sint (fork_result w)) @ NL) w)))"
proof -
  have p: "parent_branch c spawnPid fStatus w
      = Returns fStatus
          (fflush (printf (''background pid is '' @ decimal (sint spawnPid) @ NL) w))"
    for spawnPid
    using assms by (simp add: parent_branch_def)
  have "st = fStatus" if "runCommand c fStatus w = Returns st w'"
    using that child_branch_no_return [of c w st w']
    by (auto simp: runCommand_def Let_def p split: option.splits if_splits)
  moreover have "runCommand c fStatus w
      = Returns fStatus
          (fflush (printf (''background pid is '' @ decimal (sint (fork_result w)) @ NL) w))"
    if "arguments c ! 0 = Some name" "name \<noteq> ''exit''" "name \<noteq> ''cd''" "name \<noteq> ''status''"
      "fork_result w \<noteq> - 1" "fork_result w \<noteq> 0"
    using that by (simp add: runCommand_def Let_def p)
  ultimately show ?thesis by blast
qed

text \<open>
  The theorem at the command \<open>sleep 5 &\<close>.
\<close>

theorem background_run_keeps_status_witness:
  "backgroundRun (zero_block\<lparr>backgroundRun := True,
       arguments := (replicate 512 None)[0 := Some ''sleep'', 1 := Some ''5'']\<rparr>)
   \<and> \<not> foregroundMode sample_world
   \<and> runCommand (zero_block\<lparr>backgroundRun := True,
         arguments := (replicate 512 None)[0 := Some ''sleep'', 1 := Some ''5'']\<rparr>)
         768 sample_world
       = Returns 768 (fflush (printf (''background pid is 4321'' @ NL) sample_world))"
proof -
  let ?c = "zero_block\<lparr>backgroundRun := True,
       arguments := (replicate 512 None)[0 := Some ''sleep'', 1 := Some ''5'']\<rparr>"
  have a: "backgroundRun ?c" "\<not> foregroundMode sample_world"
    by (simp_all add: sample_world_def)
  have b: "arguments ?c ! 0 = Some ''sleep''" "''sleep'' \<noteq> ''exit''" "''sleep'' \<noteq> ''cd''"
    "''sleep'' \<noteq> ''status''" "fork_result sample_world \<noteq> - 1" "fork_result sample_world \<noteq> 0"
    by (simp_all add: sample_world_def)
  have d: "decimal (sint (fork_result sample_world)) = ''4321''"
    by (simp add: sample_world_def decimal_def digits.simps)
  from background_run_keeps_status [OF a, where name = "''sleep''" and fStatus = 768] b
  have "runCommand ?c 768 sample_world
      = Returns 768 (fflush (printf (''background pid is ''
          @ decimal (sint (fork_result sample_world)) @ NL) sample_world))"
    by blast
  with a d show ?thesis by simp
qed

subsection \<open>handle_SIGTSTP\<close>

lemma handle_SIGTSTP_off:
  "\<not> foregroundMode w \<Longrightarrow>
   handle_SIGTSTP w
     = w\<lparr>foregroundMode := True,
         fd1 := fd1 w @ entering_message @ stdout_buf w @ prompt @ [CHR 0x00],
         stdout_buf := []\<rparr>"
  by (simp add: handle_SIGTSTP_def fflush_def write_stdout_def)

lemma handle_SIGTSTP_on:
  "foregroundMode w \<Longrightarrow>
   handle_SIGTSTP w
     = w\<lparr>foregroundMode := False,
         fd1 := fd1 w @ exiting_message @ stdout_buf w @ prompt @ [CHR 0x00],
         stdout_buf := []\<rparr>"
  by (simp add: handle_SIGTSTP_def fflush_def write_stdout_def)

text \<open>
  Claim C8 (as amended). Two deliveries of the signal leave \<open>foregroundMode\<close> as
  it was. Each delivery writes the message of its direction, then what the stdio buffer
  held, then the prompt: from mode off the entering message comes first and the exiting
  message second, from mode on the exiting message comes first and the entering message
  second.
\<close>

theorem handle_SIGTSTP_twice:
  "foregroundMode (handle_SIGTSTP (handle_SIGTSTP w)) = foregroundMode w
   \<and> (\<not> foregroundMode w \<longrightarrow>
        fd1 (handle_SIGTSTP w) = fd1 w @ entering_message @ stdout_buf w @ prompt @ [CHR 0x00]
        \<and> fd1 (handle_SIGTSTP (handle_SIGTSTP w))
            = fd1 (handle_SIGTSTP w) @ exiting_message @ prompt @ [CHR 0x00])
   \<and> (foregroundMode w \<longrightarrow>
        fd1 (handle_SIGTSTP w) = fd1 w @ exiting_message @ stdout_buf w @ prompt @ [CHR 0x00]
        \<and> fd1 (handle_SIGTSTP (handle_SIGTSTP w))
            = fd1 (handle_SIGTSTP w) @ entering_message @ prompt @ [CHR 0x00])"
proof (cases "foregroundMode w")
  case True
  then have 1: "handle_SIGTSTP w
     = w\<lparr>foregroundMode := False,
         fd1 := fd1 w @ exiting_message @ stdout_buf w @ prompt @ [CHR 0x00],
         stdout_buf := []\<rparr>"
    by (rule handle_SIGTSTP_on)
  have "\<not> foregroundMode (handle_SIGTSTP w)"
    by (simp add: 1)
  from handle_SIGTSTP_off [OF this] True show ?thesis
    by (simp add: 1)
next
  case False
  then have 1: "handle_SIGTSTP w
     = w\<lparr>foregroundMode := True,
         fd1 := fd1 w @ entering_message @ stdout_buf w @ prompt @ [CHR 0x00],
         stdout_buf := []\<rparr>"
    by (rule handle_SIGTSTP_off)
  have "foregroundMode (handle_SIGTSTP w)"
    by (simp add: 1)
  from handle_SIGTSTP_on [OF this] False show ?thesis
    by (simp add: 1)
qed

text \<open>
  The theorem in both modes.
\<close>

theorem handle_SIGTSTP_twice_witness:
  "\<not> foregroundMode sample_world
   \<and> fd1 (handle_SIGTSTP (handle_SIGTSTP sample_world))
       = entering_message @ prompt @ [CHR 0x00] @ exiting_message @ prompt @ [CHR 0x00]
   \<and> foregroundMode (sample_world\<lparr>foregroundMode := True\<rparr>)
   \<and> fd1 (handle_SIGTSTP (handle_SIGTSTP (sample_world\<lparr>foregroundMode := True\<rparr>)))
       = exiting_message @ prompt @ [CHR 0x00] @ entering_message @ prompt @ [CHR 0x00]"
  using handle_SIGTSTP_twice [of sample_world]
    handle_SIGTSTP_twice [of "sample_world\<lparr>foregroundMode := True\<rparr>"]
  by (simp add: sample_world_def)

text \<open>
  Claim C8 as stated fails when the mode is on at the start: the first delivery writes
  the exiting message, not the entering message.
\<close>

theorem handle_SIGTSTP_counterexample:
  "foregroundMode (sample_world\<lparr>foregroundMode := True\<rparr>)
   \<and> fd1 (handle_SIGTSTP (sample_world\<lparr>foregroundMode := True\<rparr>))
       = exiting_message @ prompt @ [CHR 0x00]
   \<and> exiting_message \<noteq> entering_message"
  by (simp add: handle_SIGTSTP_def fflush_def write_stdout_def sample_world_def)

subsection \<open>How the interpreter ends\<close>

text \<open>
  Every call of \<open>exit\<close> by the interpreter is that of the built-in \<open>exit\<close>, with
  status 0, or follows a failed \<open>fork\<close>, with status 1 and the report of
  \<open>perror\<close> on standard error.
\<close>

lemma runCommand_exits:
  assumes "runCommand c fStatus w = Exits code w'"
  shows "(code = 0 \<and> arguments c ! 0 = Some ''exit'')
       \<or> (code = 1 \<and> fork_result w = - 1
           \<and> fd2 w' = fd2 w @ ''fork()'' @ NL @ '': '' @ errno_text w @ NL)"
proof -
  from assms obtain name where n: "arguments c ! 0 = Some name"
    by (auto simp: runCommand_def split: option.splits)
  show ?thesis
  proof (cases "name = ''exit''")
    case True
    with assms n show ?thesis by (simp add: runCommand_def)
  next
    case False
    show ?thesis
    proof (cases "name = ''cd'' \<or> name = ''status''")
      case True
      with assms n False show ?thesis
        by (auto simp: runCommand_def split: option.splits if_splits)
    next
      case nb: False
      show ?thesis
      proof (cases "fork_result w = - 1")
        case True
        with assms n False nb show ?thesis
          by (auto simp: runCommand_def Let_def perror_def fflush_def)
      next
        case nf: False
        with assms n False nb child_branch_no_return [of c w] parent_branch_returns [of c "fork_result w" fStatus w]
        show ?thesis
          by (auto simp: runCommand_def Let_def split: if_splits)
      qed
    qed
  qed
qed

lemma reap_keeps:
  "fork_result (reap zs w) = fork_result w \<and> fd2 (reap zs w) = fd2 w
   \<and> errno_text (reap zs w) = errno_text w"
  by (induction zs w rule: reap.induct) (simp_all add: Let_def fflush_def printf_def)

lemma main_loop_body_exits:
  assumes "main_loop_body block pid input fStatus w = Exits code w'"
  shows "code = 0
       \<or> (code = 1 \<and> fork_result w = - 1
           \<and> fd2 w' = fd2 w @ ''fork()'' @ NL @ '': '' @ errno_text w @ NL)"
proof -
  let ?w = "fflush (printf prompt (checkBackgroundProcesses w))"
  from assms obtain c where "runCommand c fStatus ?w = Exits code w'"
    by (auto simp: main_loop_body_def Let_def split: if_splits sum.splits)
  from runCommand_exits [OF this] show ?thesis
    by (auto simp: fflush_def printf_def checkBackgroundProcesses_def reap_keeps)
qed

text \<open>
  Claim C9 at the lines \<open>ls <\<close> and a single space: the pass of the loop of
  \<open>main\<close> ends neither in the built-in \<open>exit\<close> nor in a failed \<open>fork\<close>, but
  in \<open>processCommand\<close>, which hands the \<open>NULL\<close> of \<open>strtok_r\<close> to
  \<open>strlen\<close> or \<open>strdup\<close>.
\<close>

theorem missing_operand_crashes:
  "main_loop_body block pid ''ls <'' fStatus w = Crash Null_deref
   \<and> main_loop_body block pid '' '' fStatus w = Crash Null_deref"
  by (simp add: main_loop_body_def variableExpansion_def expansion_loop.simps
      parse_simps)

end
